theory Spec2Isabelle
  imports Main
begin

section \<open>libuspin: loading an image spec and applying its operations\<close>

text \<open>
  A shallow embedding of \<^verbatim>\<open>src/libuspin/main.go\<close>: the factory
  \<^verbatim>\<open>NewImageSpec\<close> and the dispatcher \<^verbatim>\<open>ApplyOperations\<close>.
  The packages \<^verbatim>\<open>libuspin/config\<close>, \<^verbatim>\<open>libuspin/spec\<close>,
  \<^verbatim>\<open>libosdev/pkg\<close> and the Go standard library are not part of the file; what
  the two functions use of them is taken as a parameter, or declared here with the
  fields the code reads.
\<close>

subsection \<open>Errors\<close>

text \<open>
  A Go \<^verbatim>\<open>error\<close> value. The two package variables, the value built by
  \<^verbatim>\<open>fmt.Errorf\<close> (kept with its formatted message), and any error a collaborator
  makes. A returned \<^verbatim>\<open>error\<close> is \<open>error option\<close>, \<open>None\<close> being
  \<^verbatim>\<open>nil\<close>.
\<close>

datatype error =
    ErrNotEnoughOps
  | ErrUnknownOperation
  | Errorf string
  | CollaboratorError string

subsection \<open>Operations (package spec)\<close>

text \<open>
  \<^verbatim>\<open>spec.Operation\<close> is an interface; the dispatcher tells its values apart
  by dynamic type. The three types it names are \<^verbatim>\<open>*spec.OpRepo\<close> (fields
  \<^verbatim>\<open>RepoName\<close>, \<^verbatim>\<open>RepoURI\<close>), \<^verbatim>\<open>*spec.OpGroup\<close>
  (\<^verbatim>\<open>GroupName\<close>, \<^verbatim>\<open>IgnoreSafety\<close>) and \<^verbatim>\<open>*spec.OpPackage\<close>
  (\<^verbatim>\<open>Name\<close>, \<^verbatim>\<open>IgnoreSafety\<close>); the constructor arguments are these
  fields in this order: \<open>OpRepo\<close>, \<open>OpGroup\<close> and \<open>OpPackage\<close> are the
  pointers to a struct, as the parser allocates them. A pointer of each of the three
  types may also be \<^verbatim>\<open>nil\<close>, as in \<^verbatim>\<open>(*spec.OpRepo)(nil)\<close>: the
  interface value then has the dynamic type and no struct behind it; these are
  \<open>NilOpRepo\<close>, \<open>NilOpGroup\<close> and \<open>NilOpPackage\<close>. \<open>OpOther\<close> is every
  other value of the interface, the \<^verbatim>\<open>nil\<close> interface included, tagged with
  the name of its dynamic type.
\<close>

datatype Operation =
    is_OpRepo: OpRepo (RepoName: string) (RepoURI: string)
  | is_OpGroup: OpGroup (GroupName: string) (IgnoreSafety: bool)
  | is_OpPackage: OpPackage (Name: string) (IgnoreSafety: bool)
  | NilOpRepo
  | NilOpGroup
  | NilOpPackage
  | OpOther string

type_synonym OpStack = "Operation list"

text \<open>
  The dynamic type of an interface value, which the type switch and the type
  assertions look at: a \<^verbatim>\<open>nil\<close> pointer has the type of its pointer.
\<close>

datatype dynamic_type = PtrOpRepo | PtrOpGroup | PtrOpPackage | OtherType string

fun dynamic_type_of :: "Operation \<Rightarrow> dynamic_type" where
  "dynamic_type_of (OpRepo _ _) = PtrOpRepo"
| "dynamic_type_of NilOpRepo = PtrOpRepo"
| "dynamic_type_of (OpGroup _ _) = PtrOpGroup"
| "dynamic_type_of NilOpGroup = PtrOpGroup"
| "dynamic_type_of (OpPackage _ _) = PtrOpPackage"
| "dynamic_type_of NilOpPackage = PtrOpPackage"
| "dynamic_type_of (OpOther t) = OtherType t"

fun is_nil_pointer :: "Operation \<Rightarrow> bool" where
  "is_nil_pointer NilOpRepo = True"
| "is_nil_pointer NilOpGroup = True"
| "is_nil_pointer NilOpPackage = True"
| "is_nil_pointer _ = False"

text \<open>Two operations of the same variant: the same dynamic type.\<close>

definition same_kind :: "Operation \<Rightarrow> Operation \<Rightarrow> bool" where
  "same_kind a b = (dynamic_type_of a = dynamic_type_of b)"

subsection \<open>The package manager (package pkg)\<close>

text \<open>
  \<^verbatim>\<open>pkg.Manager\<close> is an interface; its three methods used here change the
  manager and return an \<^verbatim>\<open>error\<close>. A manager over states \<open>'s\<close> is the record
  of the three methods, each taking the state and returning the error with the new state.
\<close>

record 's Manager =
  AddRepo :: "string \<Rightarrow> string \<Rightarrow> 's \<Rightarrow> error option \<times> 's"
  InstallGroups :: "bool \<Rightarrow> string list \<Rightarrow> 's \<Rightarrow> error option \<times> 's"
  InstallPackages :: "bool \<Rightarrow> string list \<Rightarrow> 's \<Rightarrow> error option \<times> 's"

text \<open>
  What a call of \<^verbatim>\<open>ApplyOperations\<close> does: it returns an
  \<^verbatim>\<open>error\<close> (possibly \<^verbatim>\<open>nil\<close>), or it panics. The code has two
  ways to panic: a type assertion \<^verbatim>\<open>op.(*spec.OpRepo)\<close> on a value of another
  dynamic type, and the read of a field through a \<^verbatim>\<open>nil\<close> pointer, as in
  \<^verbatim>\<open>repo.RepoName\<close>.
\<close>

datatype panic = TypeAssertion | NilDereference

datatype outcome = Return "error option" | Panic panic

subsection \<open>ApplyOperations\<close>

text \<open>
  The loop of the \<^verbatim>\<open>*spec.OpRepo\<close> case (lines 93 to 99): assert the type
  of the element, read its two fields, add the repository, return the first error. The
  assertion of line 94 succeeds on a \<^verbatim>\<open>nil\<close> pointer of the type; the reads of
  line 95 then panic, before the manager is called.
\<close>

fun addRepo_loop :: "'s Manager \<Rightarrow> Operation list \<Rightarrow> 's \<Rightarrow> outcome \<times> 's" where
  "addRepo_loop manager [] s = (Return None, s)"
| "addRepo_loop manager (op # ops) s =
     (case op of
        OpRepo name uri \<Rightarrow>
          (case AddRepo manager name uri s of
             (Some err, s') \<Rightarrow> (Return (Some err), s')
           | (None, s') \<Rightarrow> addRepo_loop manager ops s')
      | NilOpRepo \<Rightarrow> (Panic NilDereference, s)
      | _ \<Rightarrow> (Panic TypeAssertion, s))"

text \<open>
  The loop of the \<^verbatim>\<open>*spec.OpGroup\<close> case (lines 104 to 106), appending to
  \<^verbatim>\<open>names\<close>; \<open>Inl\<close> is a panic, of the type assertion or of the read of
  \<^verbatim>\<open>GroupName\<close> through a \<^verbatim>\<open>nil\<close> pointer.
\<close>

fun groupNames_loop :: "Operation list \<Rightarrow> string list \<Rightarrow> panic + string list" where
  "groupNames_loop [] names = Inr names"
| "groupNames_loop (op # ops) names =
     (case op of
        OpGroup name _ \<Rightarrow> groupNames_loop ops (names @ [name])
      | NilOpGroup \<Rightarrow> Inl NilDereference
      | _ \<Rightarrow> Inl TypeAssertion)"

text \<open>The loop of the \<^verbatim>\<open>*spec.OpPackage\<close> case (lines 112 to 114).\<close>

fun packageNames_loop :: "Operation list \<Rightarrow> string list \<Rightarrow> panic + string list" where
  "packageNames_loop [] names = Inr names"
| "packageNames_loop (op # ops) names =
     (case op of
        OpPackage name _ \<Rightarrow> packageNames_loop ops (names @ [name])
      | NilOpPackage \<Rightarrow> Inl NilDereference
      | _ \<Rightarrow> Inl TypeAssertion)"

text \<open>
  Lines 86 to 119. The type switch takes the case of the dynamic type of
  \<^verbatim>\<open>ops[0]\<close>, a \<^verbatim>\<open>nil\<close> pointer included; in the group and package
  cases the read of \<^verbatim>\<open>IgnoreSafety\<close> through \<^verbatim>\<open>ops[0]\<close> (lines 102 and
  110) comes before the loop.
\<close>

definition ApplyOperations :: "'s Manager \<Rightarrow> Operation list \<Rightarrow> 's \<Rightarrow> outcome \<times> 's" where
  "ApplyOperations manager ops s =
     (if length ops = 0 then (Return (Some ErrNotEnoughOps), s)
      else case ops ! 0 of
        OpRepo _ _ \<Rightarrow> addRepo_loop manager ops s
      | NilOpRepo \<Rightarrow> addRepo_loop manager ops s
      | OpGroup _ ignoreSafety \<Rightarrow>
          (case groupNames_loop ops [] of
             Inl p \<Rightarrow> (Panic p, s)
           | Inr names \<Rightarrow>
               (case InstallGroups manager ignoreSafety names s of
                  (err, s') \<Rightarrow> (Return err, s')))
      | NilOpGroup \<Rightarrow> (Panic NilDereference, s)
      | OpPackage _ ignoreSafety \<Rightarrow>
          (case packageNames_loop ops [] of
             Inl p \<Rightarrow> (Panic p, s)
           | Inr names \<Rightarrow>
               (case InstallPackages manager ignoreSafety names s of
                  (err, s') \<Rightarrow> (Return err, s')))
      | NilOpPackage \<Rightarrow> (Panic NilDereference, s)
      | OpOther _ \<Rightarrow> (Return (Some ErrUnknownOperation), s))"

subsection \<open>Observing the calls made to a manager\<close>

text \<open>
  A call of a manager method with its arguments. \<open>recording m\<close> is the manager
  \<open>m\<close> with a log beside its state: each method does what \<open>m\<close> does and appends
  the call and the error it returned to the log.
\<close>

datatype call =
    is_CallAddRepo: CallAddRepo string string
  | is_CallInstallGroups: CallInstallGroups bool "string list"
  | is_CallInstallPackages: CallInstallPackages bool "string list"

type_synonym log = "(call \<times> error option) list"

definition recording :: "'s Manager \<Rightarrow> ('s \<times> log) Manager" where
  "recording m =
     \<lparr> AddRepo = (\<lambda>name uri (s, l).
         case AddRepo m name uri s of
           (err, s') \<Rightarrow> (err, (s', l @ [(CallAddRepo name uri, err)]))),
       InstallGroups = (\<lambda>ignoreSafety names (s, l).
         case InstallGroups m ignoreSafety names s of
           (err, s') \<Rightarrow> (err, (s', l @ [(CallInstallGroups ignoreSafety names, err)]))),
       InstallPackages = (\<lambda>ignoreSafety names (s, l).
         case InstallPackages m ignoreSafety names s of
           (err, s') \<Rightarrow> (err, (s', l @ [(CallInstallPackages ignoreSafety names, err)]))) \<rparr>"

text \<open>
  The calls of one run are of one kind: add-repository calls only, or at most one
  install-groups call, or at most one install-packages call.
\<close>

definition one_kind :: "call list \<Rightarrow> bool" where
  "one_kind cs =
     (list_all is_CallAddRepo cs
      \<or> (length cs \<le> 1 \<and> list_all is_CallInstallGroups cs)
      \<or> (length cs \<le> 1 \<and> list_all is_CallInstallPackages cs))"

text \<open>
  A manager to run the dispatcher on. Its state counts the calls made; adding the
  repository named \<open>bad\<close> fails, and so does installing packages without the
  ignore-safety flag.
\<close>

definition fake_manager :: "nat Manager" where
  "fake_manager =
     \<lparr> AddRepo = (\<lambda>name uri n.
         (if name = ''bad'' then Some (CollaboratorError ''no such repo'') else None, Suc n)),
       InstallGroups = (\<lambda>ignoreSafety names n. (None, Suc n)),
       InstallPackages = (\<lambda>ignoreSafety names n.
         (if ignoreSafety then None else Some (CollaboratorError ''unsafe''), Suc n)) \<rparr>"

subsection \<open>The image spec and its collaborators\<close>

text \<open>
  Of \<^verbatim>\<open>config.ImageConfiguration\<close> the code reads one field,
  \<^verbatim>\<open>conf.Image.Packages\<close>, the name of the packages file relative to the
  \<^verbatim>\<open>.spin\<close> file.
\<close>

record ImageConfiguration =
  Image_Packages :: string

text \<open>
  \<^verbatim>\<open>ImageSpec\<close>, as declared at lines 43 to 47. The two pointer fields are
  options, \<open>None\<close> being \<^verbatim>\<open>nil\<close>, the value they have in the zero struct
  \<^verbatim>\<open>&ImageSpec{}\<close>; the zero value of \<^verbatim>\<open>BaseDir\<close> is the empty
  string.
\<close>

record ImageSpec =
  Stack :: "OpStack option"
  Config :: "ImageConfiguration option"
  BaseDir :: string

text \<open>
  What \<^verbatim>\<open>NewImageSpec\<close> calls outside this file. \<^verbatim>\<open>config.New\<close>,
  \<^verbatim>\<open>filepath.Abs\<close> (which reads the working directory) and the parser's
  \<^verbatim>\<open>Parse\<close> depend on the world \<open>'w\<close> outside the program and may fail;
  \<^verbatim>\<open>Parse\<close> leaves its result in \<^verbatim>\<open>parser.Stack\<close>, returned here
  with success. \<^verbatim>\<open>filepath.Dir\<close> and \<^verbatim>\<open>filepath.Join\<close> are
  functions of their arguments.
\<close>

record 'w Collaborators =
  config_New :: "string \<Rightarrow> 'w \<Rightarrow> (error + ImageConfiguration) \<times> 'w"
  filepath_Dir :: "string \<Rightarrow> string"
  filepath_Abs :: "string \<Rightarrow> 'w \<Rightarrow> (error + string) \<times> 'w"
  filepath_Join :: "string \<Rightarrow> string \<Rightarrow> string"
  parser_Parse :: "string \<Rightarrow> 'w \<Rightarrow> (error + OpStack) \<times> 'w"

text \<open>
  \<^verbatim>\<open>strings.HasSuffix\<close> of the Go standard library:
  \<^verbatim>\<open>len(s) >= len(suffix) && s[len(s)-len(suffix):] == suffix\<close>.
\<close>

definition HasSuffix :: "string \<Rightarrow> string \<Rightarrow> bool" where
  "HasSuffix s suffix =
     (length s \<ge> length suffix \<and> drop (length s - length suffix) s = suffix)"

subsection \<open>NewImageSpec\<close>

text \<open>
  Lines 51 to 82. The local \<^verbatim>\<open>is\<close> starts as the zero struct and receives the
  base directory; the struct returned at line 78 is a new literal that gives
  \<^verbatim>\<open>Stack\<close> and \<^verbatim>\<open>Config\<close> only.
\<close>

definition NewImageSpec :: "'w Collaborators \<Rightarrow> string \<Rightarrow> 'w \<Rightarrow> (error + ImageSpec) \<times> 'w" where
  "NewImageSpec env spinFile w =
     (let is = \<lparr> Stack = None, Config = None, BaseDir = [] \<rparr> in
      if \<not> HasSuffix spinFile ''.spin''
      then (Inl (Errorf (''Not a .spin file: '' @ spinFile)), w)
      else case config_New env spinFile w of
        (Inl err, w1) \<Rightarrow> (Inl err, w1)
      | (Inr conf, w1) \<Rightarrow>
          (case filepath_Abs env (filepath_Dir env spinFile) w1 of
             (Inl err, w2) \<Rightarrow> (Inl err, w2)
           | (Inr dir, w2) \<Rightarrow>
               (let is = is \<lparr> BaseDir := dir \<rparr>;
                    pkgsFile = filepath_Join env (BaseDir is) (Image_Packages conf)
                in case parser_Parse env pkgsFile w2 of
                     (Inl err, w3) \<Rightarrow> (Inl err, w3)
                   | (Inr stack, w3) \<Rightarrow>
                       (Inr \<lparr> Stack = Some stack, Config = Some conf, BaseDir = [] \<rparr>, w3))))"

subsection \<open>Observing the calls made by the loader\<close>

datatype load_call = CallConfigNew string | CallAbs string | CallParse string

text \<open>
  \<open>recording_env env\<close> is \<open>env\<close> with a log beside the world: each of the three
  calls that reach the world is appended to the log with its argument.
\<close>

definition recording_env :: "'w Collaborators \<Rightarrow> ('w \<times> load_call list) Collaborators" where
  "recording_env env =
     \<lparr> config_New = (\<lambda>path (w, l).
         case config_New env path w of (r, w') \<Rightarrow> (r, (w', l @ [CallConfigNew path]))),
       filepath_Dir = filepath_Dir env,
       filepath_Abs = (\<lambda>path (w, l).
         case filepath_Abs env path w of (r, w') \<Rightarrow> (r, (w', l @ [CallAbs path]))),
       filepath_Join = filepath_Join env,
       parser_Parse = (\<lambda>path (w, l).
         case parser_Parse env path w of (r, w') \<Rightarrow> (r, (w', l @ [CallParse path]))) \<rparr>"

text \<open>
  Collaborators to run the loader on: the three calls that may fail return the given
  results and count the calls in the world. The two path functions are Go's on the
  paths used below: a file name without a separator has the directory \<open>.\<close>, and
  \<^verbatim>\<open>filepath.Join\<close> skips an empty first element.
\<close>

definition fake_env ::
  "(error + ImageConfiguration) \<Rightarrow> (error + string) \<Rightarrow> (error + OpStack) \<Rightarrow> nat Collaborators" where
  "fake_env conf dir stack =
     \<lparr> config_New = (\<lambda>path w. (conf, Suc w)),
       filepath_Dir = (\<lambda>path. ''.''),
       filepath_Abs = (\<lambda>path w. (dir, Suc w)),
       filepath_Join = (\<lambda>d file. if d = [] then file else d @ ''/'' @ file),
       parser_Parse = (\<lambda>path w. (stack, Suc w)) \<rparr>"

section \<open>The recording manager and the loops\<close>

text \<open>
  Each method of \<open>recording m\<close> returns what the method of \<open>m\<close> returns and
  leaves the state \<open>m\<close> leaves, with one entry more in the log.
\<close>

lemma recording_AddRepo:
  "AddRepo (recording m) name uri (s, l) =
     (fst (AddRepo m name uri s), (snd (AddRepo m name uri s), l @ [(CallAddRepo name uri, fst (AddRepo m name uri s))]))"
  by (simp add: recording_def split: prod.splits)

lemma recording_InstallGroups:
  "InstallGroups (recording m) f names (s, l) =
     (fst (InstallGroups m f names s), (snd (InstallGroups m f names s), l @ [(CallInstallGroups f names, fst (InstallGroups m f names s))]))"
  by (simp add: recording_def split: prod.splits)

lemma recording_InstallPackages:
  "InstallPackages (recording m) f names (s, l) =
     (fst (InstallPackages m f names s), (snd (InstallPackages m f names s), l @ [(CallInstallPackages f names, fst (InstallPackages m f names s))]))"
  by (simp add: recording_def split: prod.splits)

text \<open>
  Running the dispatcher on \<open>recording m\<close> is running it on \<open>m\<close>: the log
  changes neither the outcome nor the state of the manager.
\<close>

lemma addRepo_loop_recording_faithful:
  "addRepo_loop (recording m) ops (s, l0) = (r, (s', l)) \<Longrightarrow> addRepo_loop m ops s = (r, s')"
  by (induction ops arbitrary: s l0)
     (auto simp: recording_AddRepo split: Operation.splits prod.splits option.splits)

lemma ApplyOperations_recording_faithful:
  "ApplyOperations (recording m) ops (s, l0) = (r, (s', l)) \<Longrightarrow> ApplyOperations m ops s = (r, s')"
  by (auto simp: ApplyOperations_def recording_InstallGroups recording_InstallPackages
        split: if_splits Operation.splits option.splits sum.splits prod.splits
        dest: addRepo_loop_recording_faithful)

text \<open>
  On a list of structs of the expected variant only, no loop panics; the two collecting
  loops return the names in list order after those already collected.
\<close>

lemma groupNames_loop_all:
  "list_all is_OpGroup ops \<Longrightarrow> groupNames_loop ops names = Inr (names @ map GroupName ops)"
  by (induction ops arbitrary: names) (auto split: Operation.splits)

lemma packageNames_loop_all:
  "list_all is_OpPackage ops \<Longrightarrow> packageNames_loop ops names = Inr (names @ map Name ops)"
  by (induction ops arbitrary: names) (auto split: Operation.splits)

lemma addRepo_loop_never_panics:
  "list_all is_OpRepo ops \<Longrightarrow> \<exists>err s'. addRepo_loop m ops s = (Return err, s')"
  by (induction ops arbitrary: s) (auto split: Operation.splits prod.splits option.splits)

text \<open>
  The log of the add-repository loop on repositories only: one successful call for each
  element when the loop returns \<^verbatim>\<open>nil\<close>; otherwise one successful call for each
  element before the first failing one, then the failing call, and nothing after it.
\<close>

lemma addRepo_loop_log:
  assumes "list_all is_OpRepo ops"
    and "addRepo_loop (recording m) ops (s, l0) = (r, (s', l))"
  shows "(r = Return None \<and>
          l = l0 @ map (\<lambda>op. (CallAddRepo (RepoName op) (RepoURI op), None)) ops)
       \<or> (\<exists>e pre op post. r = Return (Some e) \<and> ops = pre @ op # post \<and>
            l = l0 @ map (\<lambda>op. (CallAddRepo (RepoName op) (RepoURI op), None)) pre
                   @ [(CallAddRepo (RepoName op) (RepoURI op), Some e)])"
  using assms
proof (induction ops arbitrary: s l0)
  case Nil
  then show ?case by simp
next
  case (Cons op ops)
  from Cons.prems(1) obtain name uri where op: "op = OpRepo name uri" and rest: "list_all is_OpRepo ops"
    by (cases op) auto
  show ?case
  proof (cases "fst (AddRepo m name uri s)")
    case None
    with Cons.prems(2) op
    have run: "addRepo_loop (recording m) ops (snd (AddRepo m name uri s), l0 @ [(CallAddRepo name uri, None)]) = (r, (s', l))"
      by (simp add: recording_AddRepo)
    from Cons.IH [OF rest run] show ?thesis
    proof
      assume "r = Return None \<and> l = (l0 @ [(CallAddRepo name uri, None)]) @ map (\<lambda>op. (CallAddRepo (RepoName op) (RepoURI op), None)) ops"
      then show ?thesis using op by simp
    next
      assume "\<exists>e pre op' post. r = Return (Some e) \<and> ops = pre @ op' # post \<and>
            l = (l0 @ [(CallAddRepo name uri, None)]) @ map (\<lambda>op. (CallAddRepo (RepoName op) (RepoURI op), None)) pre
                   @ [(CallAddRepo (RepoName op') (RepoURI op'), Some e)]"
      then obtain e pre op' post where r: "r = Return (Some e)" and o: "ops = pre @ op' # post"
        and l: "l = (l0 @ [(CallAddRepo name uri, None)]) @ map (\<lambda>op. (CallAddRepo (RepoName op) (RepoURI op), None)) pre
                   @ [(CallAddRepo (RepoName op') (RepoURI op'), Some e)]"
        by blast
      have "op # ops = (op # pre) @ op' # post" using o by simp
      moreover have "l = l0 @ map (\<lambda>op. (CallAddRepo (RepoName op) (RepoURI op), None)) (op # pre)
                   @ [(CallAddRepo (RepoName op') (RepoURI op'), Some e)]"
        using l op by simp
      ultimately show ?thesis using r by blast
    qed
  next
    case (Some e)
    with Cons.prems(2) op
    have "r = Return (Some e)" and "l = l0 @ [(CallAddRepo name uri, Some e)]"
      by (simp_all add: recording_AddRepo)
    moreover have "op # ops = [] @ op # ops" by simp
    ultimately have "r = Return (Some e) \<and> op # ops = [] @ op # ops \<and>
            l = l0 @ map (\<lambda>op. (CallAddRepo (RepoName op) (RepoURI op), None)) []
                   @ [(CallAddRepo (RepoName op) (RepoURI op), Some e)]"
      using op by simp
    then show ?thesis by blast
  qed
qed

text \<open>
  On any list, whatever the add-repository loop appends to the log is an
  add-repository call.
\<close>

lemma addRepo_loop_recording_calls:
  "addRepo_loop (recording m) ops (s, l0) = (r, (s', l)) \<Longrightarrow>
     \<exists>new. l = l0 @ new \<and> list_all is_CallAddRepo (map fst new)"
proof (induction ops arbitrary: s l0)
  case Nil
  then show ?case by simp
next
  case (Cons op ops)
  show ?case
  proof (cases op)
    case (OpRepo name uri)
    show ?thesis
    proof (cases "fst (AddRepo m name uri s)")
      case None
      with Cons.prems OpRepo
      have "addRepo_loop (recording m) ops (snd (AddRepo m name uri s), l0 @ [(CallAddRepo name uri, None)]) = (r, (s', l))"
        by (simp add: recording_AddRepo)
      from Cons.IH [OF this] obtain new where "l = (l0 @ [(CallAddRepo name uri, None)]) @ new"
        and "list_all is_CallAddRepo (map fst new)" by blast
      then have "l = l0 @ ((CallAddRepo name uri, None) # new) \<and> list_all is_CallAddRepo (map fst ((CallAddRepo name uri, None) # new))"
        by simp
      then show ?thesis by blast
    next
      case (Some e)
      with Cons.prems OpRepo have "l = l0 @ [(CallAddRepo name uri, Some e)]"
        by (simp add: recording_AddRepo)
      then have "l = l0 @ [(CallAddRepo name uri, Some e)] \<and> list_all is_CallAddRepo (map fst [(CallAddRepo name uri, Some e)])"
        by simp
      then show ?thesis by blast
    qed
  qed (use Cons.prems in auto)
qed

text \<open>
  On a list of one dynamic type, no type assertion of the loop for that type fails,
  whether or not a pointer is \<^verbatim>\<open>nil\<close>.
\<close>

lemma addRepo_loop_no_assertion_panic:
  "list_all (\<lambda>op. dynamic_type_of op = PtrOpRepo) ops \<Longrightarrow>
     fst (addRepo_loop m ops s) \<noteq> Panic TypeAssertion"
  by (induction ops arbitrary: s) (auto split: Operation.splits prod.splits option.splits)

lemma groupNames_loop_no_assertion_panic:
  "list_all (\<lambda>op. dynamic_type_of op = PtrOpGroup) ops \<Longrightarrow>
     groupNames_loop ops names \<noteq> Inl TypeAssertion"
  by (induction ops arbitrary: names) (auto split: Operation.splits)

lemma packageNames_loop_no_assertion_panic:
  "list_all (\<lambda>op. dynamic_type_of op = PtrOpPackage) ops \<Longrightarrow>
     packageNames_loop ops names \<noteq> Inl TypeAssertion"
  by (induction ops arbitrary: names) (auto split: Operation.splits)

text \<open>A pointer of one of the three types that is not \<^verbatim>\<open>nil\<close> is a struct.\<close>

lemma PtrOpRepo_not_nil:
  "dynamic_type_of op = PtrOpRepo \<Longrightarrow> \<not> is_nil_pointer op \<Longrightarrow> is_OpRepo op"
  by (cases op) simp_all

lemma PtrOpGroup_not_nil:
  "dynamic_type_of op = PtrOpGroup \<Longrightarrow> \<not> is_nil_pointer op \<Longrightarrow> is_OpGroup op"
  by (cases op) simp_all

lemma PtrOpPackage_not_nil:
  "dynamic_type_of op = PtrOpPackage \<Longrightarrow> \<not> is_nil_pointer op \<Longrightarrow> is_OpPackage op"
  by (cases op) simp_all

section \<open>Properties of ApplyOperations\<close>

text \<open>
  Claim C6. For every manager, \<^verbatim>\<open>ApplyOperations\<close> on the empty list returns
  \<^verbatim>\<open>ErrNotEnoughOps\<close>; the manager's state is unchanged and no method of it
  has been called.
\<close>

theorem ApplyOperations_empty:
  "ApplyOperations (recording m) [] (s, []) = (Return (Some ErrNotEnoughOps), (s, []))"
  by (simp add: ApplyOperations_def)

text \<open>
  Claim C2, amended. For every non-empty list of \<^verbatim>\<open>OpRepo\<close> operations
  only, \<^verbatim>\<open>ApplyOperations\<close> either returns \<^verbatim>\<open>nil\<close> after exactly
  one successful \<^verbatim>\<open>AddRepo\<close> call for each element, in list order, with the
  element's own name and URI; or it returns an error \<open>e\<close>, and then the calls made
  are one successful call for each element before some element \<open>op\<close>, in list order,
  followed by the call for \<open>op\<close> that returned \<open>e\<close>, and no call for any later
  element. It never panics there.
\<close>

theorem ApplyOperations_repos:
  assumes "ops \<noteq> []" and "list_all is_OpRepo ops"
    and "ApplyOperations (recording m) ops (s, []) = (r, (s', l))"
  shows "(r = Return None \<and>
          l = map (\<lambda>op. (CallAddRepo (RepoName op) (RepoURI op), None)) ops)
       \<or> (\<exists>e pre op post. r = Return (Some e) \<and> ops = pre @ op # post \<and>
            l = map (\<lambda>op. (CallAddRepo (RepoName op) (RepoURI op), None)) pre
                @ [(CallAddRepo (RepoName op) (RepoURI op), Some e)])"
proof -
  from assms(1,2) obtain name uri rest where "ops = OpRepo name uri # rest"
    by (cases ops; cases "hd ops") auto
  with assms(3) have "addRepo_loop (recording m) ops (s, []) = (r, (s', l))"
    by (simp add: ApplyOperations_def)
  from addRepo_loop_log [OF assms(2) this] show ?thesis by simp
qed

theorem ApplyOperations_repos_witness:
  "[OpRepo ''a'' ''u1'', OpRepo ''bad'' ''u2'', OpRepo ''c'' ''u3''] \<noteq> []
   \<and> list_all is_OpRepo [OpRepo ''a'' ''u1'', OpRepo ''bad'' ''u2'', OpRepo ''c'' ''u3'']
   \<and> ApplyOperations (recording fake_manager)
        [OpRepo ''a'' ''u1'', OpRepo ''bad'' ''u2'', OpRepo ''c'' ''u3''] (0, [])
      = (Return (Some (CollaboratorError ''no such repo'')),
         (2, [(CallAddRepo ''a'' ''u1'', None),
              (CallAddRepo ''bad'' ''u2'', Some (CollaboratorError ''no such repo''))]))
   \<and> (\<exists>pre op post.
        [OpRepo ''a'' ''u1'', OpRepo ''bad'' ''u2'', OpRepo ''c'' ''u3''] = pre @ op # post
        \<and> [(CallAddRepo ''a'' ''u1'', None),
            (CallAddRepo ''bad'' ''u2'', Some (CollaboratorError ''no such repo''))]
          = map (\<lambda>op. (CallAddRepo (RepoName op) (RepoURI op), None)) pre
            @ [(CallAddRepo (RepoName op) (RepoURI op), Some (CollaboratorError ''no such repo''))])"
proof -
  let ?ops = "[OpRepo ''a'' ''u1'', OpRepo ''bad'' ''u2'', OpRepo ''c'' ''u3'']"
  let ?e = "CollaboratorError ''no such repo''"
  let ?l = "[(CallAddRepo ''a'' ''u1'', None), (CallAddRepo ''bad'' ''u2'', Some ?e)]"
  have h1: "?ops \<noteq> []" by simp
  have h2: "list_all is_OpRepo ?ops" by simp
  have h3: "ApplyOperations (recording fake_manager) ?ops (0, []) = (Return (Some ?e), (2, ?l))"
    by (simp add: ApplyOperations_def recording_def fake_manager_def)
  from ApplyOperations_repos [OF h1 h2 h3]
  have "\<exists>e pre op post. Return (Some ?e) = Return (Some e) \<and> ?ops = pre @ op # post \<and>
            ?l = map (\<lambda>op. (CallAddRepo (RepoName op) (RepoURI op), None)) pre
                @ [(CallAddRepo (RepoName op) (RepoURI op), Some e)]"
    by simp
  then have "\<exists>pre op post. ?ops = pre @ op # post \<and>
            ?l = map (\<lambda>op. (CallAddRepo (RepoName op) (RepoURI op), None)) pre
                @ [(CallAddRepo (RepoName op) (RepoURI op), Some ?e)]"
    by auto
  with h1 h2 h3 show ?thesis by blast
qed

text \<open>
  Claim C2 as it is written asks only for the first element to be an
  \<^verbatim>\<open>OpRepo\<close>. On a list whose second element is an \<^verbatim>\<open>OpGroup\<close> the
  type assertion of line 94 panics after the first call: there is not one call for each
  element, and nothing is returned.
\<close>

theorem ApplyOperations_mixed_repo_panics:
  "ApplyOperations (recording fake_manager) [OpRepo ''a'' ''u1'', OpGroup ''g'' True] (0, [])
   = (Panic TypeAssertion, (1, [(CallAddRepo ''a'' ''u1'', None)]))"
  by (simp add: ApplyOperations_def recording_def fake_manager_def)

text \<open>
  Claim C3. For every non-empty list of \<^verbatim>\<open>OpGroup\<close> operations only,
  \<^verbatim>\<open>ApplyOperations\<close> makes exactly one call of the manager,
  \<^verbatim>\<open>InstallGroups\<close> with the \<^verbatim>\<open>IgnoreSafety\<close> flag of the first
  element and the group names of all elements in list order, and returns what that call
  returns.
\<close>

theorem ApplyOperations_groups:
  assumes "ops \<noteq> []" and "list_all is_OpGroup ops"
  shows "ApplyOperations (recording m) ops (s, []) =
     (case InstallGroups m (IgnoreSafety (ops ! 0)) (map GroupName ops) s of
        (err, s') \<Rightarrow>
          (Return err,
           (s', [(CallInstallGroups (IgnoreSafety (ops ! 0)) (map GroupName ops), err)])))"
proof -
  from assms obtain name f rest where ops: "ops = OpGroup name f # rest"
    by (cases ops; cases "hd ops") auto
  have "groupNames_loop ops [] = Inr (map GroupName ops)"
    using groupNames_loop_all [OF assms(2), of "[]"] by simp
  then show ?thesis
    by (simp add: ApplyOperations_def ops recording_InstallGroups split: prod.splits)
qed

theorem ApplyOperations_groups_witness:
  "[OpGroup ''g1'' True, OpGroup ''g2'' False] \<noteq> []
   \<and> list_all is_OpGroup [OpGroup ''g1'' True, OpGroup ''g2'' False]
   \<and> ApplyOperations (recording fake_manager) [OpGroup ''g1'' True, OpGroup ''g2'' False] (0, [])
     = (Return None, (1, [(CallInstallGroups True [''g1'', ''g2''], None)]))"
proof -
  have h1: "[OpGroup ''g1'' True, OpGroup ''g2'' False] \<noteq> []" by simp
  have h2: "list_all is_OpGroup [OpGroup ''g1'' True, OpGroup ''g2'' False]" by simp
  from ApplyOperations_groups [OF h1 h2, of fake_manager 0] h1 h2
  show ?thesis by (simp add: fake_manager_def)
qed

text \<open>
  Claim C4. For every non-empty list of \<^verbatim>\<open>OpPackage\<close> operations only,
  \<^verbatim>\<open>ApplyOperations\<close> makes exactly one call of the manager,
  \<^verbatim>\<open>InstallPackages\<close> with the \<^verbatim>\<open>IgnoreSafety\<close> flag of the first
  element and the package names of all elements in list order, and returns what that call
  returns.
\<close>

theorem ApplyOperations_packages:
  assumes "ops \<noteq> []" and "list_all is_OpPackage ops"
  shows "ApplyOperations (recording m) ops (s, []) =
     (case InstallPackages m (IgnoreSafety (ops ! 0)) (map Name ops) s of
        (err, s') \<Rightarrow>
          (Return err,
           (s', [(CallInstallPackages (IgnoreSafety (ops ! 0)) (map Name ops), err)])))"
proof -
  from assms obtain name f rest where ops: "ops = OpPackage name f # rest"
    by (cases ops; cases "hd ops") auto
  have "packageNames_loop ops [] = Inr (map Name ops)"
    using packageNames_loop_all [OF assms(2), of "[]"] by simp
  then show ?thesis
    by (simp add: ApplyOperations_def ops recording_InstallPackages split: prod.splits)
qed

theorem ApplyOperations_packages_witness:
  "[OpPackage ''p1'' False, OpPackage ''p2'' True] \<noteq> []
   \<and> list_all is_OpPackage [OpPackage ''p1'' False, OpPackage ''p2'' True]
   \<and> ApplyOperations (recording fake_manager) [OpPackage ''p1'' False, OpPackage ''p2'' True] (0, [])
     = (Return (Some (CollaboratorError ''unsafe'')),
        (1, [(CallInstallPackages False [''p1'', ''p2''], Some (CollaboratorError ''unsafe''))]))"
proof -
  have h1: "[OpPackage ''p1'' False, OpPackage ''p2'' True] \<noteq> []" by simp
  have h2: "list_all is_OpPackage [OpPackage ''p1'' False, OpPackage ''p2'' True]" by simp
  from ApplyOperations_packages [OF h1 h2, of fake_manager 0] h1 h2
  show ?thesis by (simp add: fake_manager_def)
qed

text \<open>
  Claim C5. For every non-empty list whose first element has none of the dynamic types
  \<^verbatim>\<open>*spec.OpRepo\<close>, \<^verbatim>\<open>*spec.OpGroup\<close> and
  \<^verbatim>\<open>*spec.OpPackage\<close>, \<^verbatim>\<open>ApplyOperations\<close> returns
  \<^verbatim>\<open>ErrUnknownOperation\<close>, whatever follows the first element; the manager's
  state is unchanged and no method of it has been called.
\<close>

theorem ApplyOperations_unknown:
  assumes "ops \<noteq> []"
    and "dynamic_type_of (ops ! 0) \<noteq> PtrOpRepo"
    and "dynamic_type_of (ops ! 0) \<noteq> PtrOpGroup"
    and "dynamic_type_of (ops ! 0) \<noteq> PtrOpPackage"
  shows "ApplyOperations (recording m) ops (s, []) = (Return (Some ErrUnknownOperation), (s, []))"
  using assms by (cases "ops ! 0") (simp_all add: ApplyOperations_def)

theorem ApplyOperations_unknown_witness:
  "[OpOther ''*spec.OpFile'', OpRepo ''a'' ''u1''] \<noteq> []
   \<and> dynamic_type_of ([OpOther ''*spec.OpFile'', OpRepo ''a'' ''u1''] ! 0) \<noteq> PtrOpRepo
   \<and> dynamic_type_of ([OpOther ''*spec.OpFile'', OpRepo ''a'' ''u1''] ! 0) \<noteq> PtrOpGroup
   \<and> dynamic_type_of ([OpOther ''*spec.OpFile'', OpRepo ''a'' ''u1''] ! 0) \<noteq> PtrOpPackage
   \<and> ApplyOperations (recording fake_manager) [OpOther ''*spec.OpFile'', OpRepo ''a'' ''u1''] (0, [])
     = (Return (Some ErrUnknownOperation), (0, []))"
proof -
  let ?ops = "[OpOther ''*spec.OpFile'', OpRepo ''a'' ''u1'']"
  have h1: "?ops \<noteq> []" by simp
  have h2: "dynamic_type_of (?ops ! 0) \<noteq> PtrOpRepo" by simp
  have h3: "dynamic_type_of (?ops ! 0) \<noteq> PtrOpGroup" by simp
  have h4: "dynamic_type_of (?ops ! 0) \<noteq> PtrOpPackage" by simp
  from ApplyOperations_unknown [OF h1 h2 h3 h4, of fake_manager 0] h1 h2 h3 h4
  show ?thesis by blast
qed

text \<open>
  Claim C9, amended. On a non-empty list whose elements all have the dynamic type of the
  first one, no type assertion fails: \<^verbatim>\<open>ApplyOperations\<close> does not panic on an
  assertion. If moreover no element is a \<^verbatim>\<open>nil\<close> pointer, it returns (an error
  or \<^verbatim>\<open>nil\<close>) and does not panic at all.
\<close>

theorem ApplyOperations_homogeneous:
  assumes "ops \<noteq> []" and "list_all (same_kind (ops ! 0)) ops"
  shows "fst (ApplyOperations m ops s) \<noteq> Panic TypeAssertion
       \<and> (list_all (\<lambda>op. \<not> is_nil_pointer op) ops \<longrightarrow>
            (\<exists>err s'. ApplyOperations m ops s = (Return err, s')))"
proof -
  from assms(2) have same: "list_all (\<lambda>op. dynamic_type_of op = dynamic_type_of (ops ! 0)) ops"
    by (simp add: same_kind_def [abs_def] eq_commute)
  from assms(1) have len: "length ops \<noteq> 0" by simp
  show ?thesis
  proof (cases "dynamic_type_of (ops ! 0)")
    case PtrOpRepo
    then have run: "ApplyOperations m ops s = addRepo_loop m ops s"
      using len by (cases "ops ! 0") (simp_all add: ApplyOperations_def)
    from same PtrOpRepo have ty: "list_all (\<lambda>op. dynamic_type_of op = PtrOpRepo) ops"
      by simp
    have "list_all is_OpRepo ops" if "list_all (\<lambda>op. \<not> is_nil_pointer op) ops"
      using ty that by (auto simp: list_all_iff intro: PtrOpRepo_not_nil)
    then show ?thesis
      using addRepo_loop_no_assertion_panic [OF ty, of m s] addRepo_loop_never_panics [of ops m s]
      by (auto simp: run)
  next
    case PtrOpGroup
    from same PtrOpGroup have ty: "list_all (\<lambda>op. dynamic_type_of op = PtrOpGroup) ops"
      by simp
    have all: "list_all is_OpGroup ops" if "list_all (\<lambda>op. \<not> is_nil_pointer op) ops"
      using ty that by (auto simp: list_all_iff intro: PtrOpGroup_not_nil)
    have a: "fst (ApplyOperations m ops s) \<noteq> Panic TypeAssertion"
      using PtrOpGroup len groupNames_loop_no_assertion_panic [OF ty, of "[]"]
      by (cases "ops ! 0") (auto simp: ApplyOperations_def split: sum.splits prod.splits)
    have b: "\<exists>err s'. ApplyOperations m ops s = (Return err, s')"
      if nn: "list_all (\<lambda>op. \<not> is_nil_pointer op) ops"
    proof -
      from all [OF nn] have names: "groupNames_loop ops [] = Inr (map GroupName ops)"
        using groupNames_loop_all [of ops "[]"] by simp
      from all [OF nn] assms(1) have "is_OpGroup (ops ! 0)"
        by (cases ops) simp_all
      then show ?thesis using len names
        by (cases "ops ! 0") (simp_all add: ApplyOperations_def split: prod.splits)
    qed
    from a b show ?thesis by blast
  next
    case PtrOpPackage
    from same PtrOpPackage have ty: "list_all (\<lambda>op. dynamic_type_of op = PtrOpPackage) ops"
      by simp
    have all: "list_all is_OpPackage ops" if "list_all (\<lambda>op. \<not> is_nil_pointer op) ops"
      using ty that by (auto simp: list_all_iff intro: PtrOpPackage_not_nil)
    have a: "fst (ApplyOperations m ops s) \<noteq> Panic TypeAssertion"
      using PtrOpPackage len packageNames_loop_no_assertion_panic [OF ty, of "[]"]
      by (cases "ops ! 0") (auto simp: ApplyOperations_def split: sum.splits prod.splits)
    have b: "\<exists>err s'. ApplyOperations m ops s = (Return err, s')"
      if nn: "list_all (\<lambda>op. \<not> is_nil_pointer op) ops"
    proof -
      from all [OF nn] have names: "packageNames_loop ops [] = Inr (map Name ops)"
        using packageNames_loop_all [of ops "[]"] by simp
      from all [OF nn] assms(1) have "is_OpPackage (ops ! 0)"
        by (cases ops) simp_all
      then show ?thesis using len names
        by (cases "ops ! 0") (simp_all add: ApplyOperations_def split: prod.splits)
    qed
    from a b show ?thesis by blast
  next
    case (OtherType t)
    then show ?thesis using len
      by (cases "ops ! 0") (simp_all add: ApplyOperations_def)
  qed
qed

theorem ApplyOperations_homogeneous_witness:
  "[OpRepo ''a'' ''u1'', OpRepo ''b'' ''u2''] \<noteq> []
   \<and> list_all (same_kind ([OpRepo ''a'' ''u1'', OpRepo ''b'' ''u2''] ! 0))
        [OpRepo ''a'' ''u1'', OpRepo ''b'' ''u2'']
   \<and> list_all (\<lambda>op. \<not> is_nil_pointer op) [OpRepo ''a'' ''u1'', OpRepo ''b'' ''u2'']
   \<and> fst (ApplyOperations fake_manager [OpRepo ''a'' ''u1'', OpRepo ''b'' ''u2''] 0)
       \<noteq> Panic TypeAssertion
   \<and> (\<exists>err s'. ApplyOperations fake_manager [OpRepo ''a'' ''u1'', OpRepo ''b'' ''u2''] 0
                 = (Return err, s'))"
proof -
  let ?ops = "[OpRepo ''a'' ''u1'', OpRepo ''b'' ''u2'']"
  have h1: "?ops \<noteq> []" by simp
  have h2: "list_all (same_kind (?ops ! 0)) ?ops" by (simp add: same_kind_def)
  have h3: "list_all (\<lambda>op. \<not> is_nil_pointer op) ?ops" by simp
  from ApplyOperations_homogeneous [OF h1 h2, of fake_manager 0] h1 h2 h3
  show ?thesis by blast
qed

text \<open>
  Claim C9 as it is written concludes that \<^verbatim>\<open>ApplyOperations\<close> is total on
  every homogeneous list. The list of the one element \<^verbatim>\<open>(*spec.OpRepo)(nil)\<close>
  is homogeneous; the assertion of line 94 succeeds on it and the read of
  \<^verbatim>\<open>repo.RepoName\<close> at line 95 panics, before any call of the manager.
\<close>

theorem ApplyOperations_nil_pointer_panics:
  "[NilOpRepo] \<noteq> []
   \<and> list_all (same_kind ([NilOpRepo] ! 0)) [NilOpRepo]
   \<and> ApplyOperations (recording fake_manager) [NilOpRepo] (0, [])
     = (Panic NilDereference, (0, []))"
  by (simp add: ApplyOperations_def same_kind_def)

text \<open>
  Claim C10. In one call of \<^verbatim>\<open>ApplyOperations\<close>, on any list and any
  manager, the calls made to the manager are of one kind: \<^verbatim>\<open>AddRepo\<close> calls
  only, or at most one \<^verbatim>\<open>InstallGroups\<close> call and nothing else, or at most
  one \<^verbatim>\<open>InstallPackages\<close> call and nothing else.
\<close>

theorem ApplyOperations_one_kind:
  "one_kind (map fst (snd (snd (ApplyOperations (recording m) ops (s, [])))))"
proof (cases ops)
  case Nil
  then show ?thesis by (simp add: ApplyOperations_def one_kind_def)
next
  case (Cons op rest)
  show ?thesis
  proof (cases op)
    case (OpRepo name uri)
    obtain r s' l where run: "addRepo_loop (recording m) ops (s, []) = (r, (s', l))"
      by (metis surj_pair)
    from addRepo_loop_recording_calls [OF run] have "list_all is_CallAddRepo (map fst l)"
      by auto
    moreover have "ApplyOperations (recording m) ops (s, []) = (r, (s', l))"
      using run Cons OpRepo by (simp add: ApplyOperations_def)
    ultimately show ?thesis by (simp add: one_kind_def)
  next
    case NilOpRepo
    obtain r s' l where run: "addRepo_loop (recording m) ops (s, []) = (r, (s', l))"
      by (metis surj_pair)
    from addRepo_loop_recording_calls [OF run] have "list_all is_CallAddRepo (map fst l)"
      by auto
    moreover have "ApplyOperations (recording m) ops (s, []) = (r, (s', l))"
      using run Cons NilOpRepo by (simp add: ApplyOperations_def)
    ultimately show ?thesis by (simp add: one_kind_def)
  next
    case (OpGroup name f)
    then show ?thesis using Cons
      by (simp add: ApplyOperations_def one_kind_def recording_InstallGroups
            split: sum.splits)
  next
    case (OpPackage name f)
    then show ?thesis using Cons
      by (simp add: ApplyOperations_def one_kind_def recording_InstallPackages
            split: sum.splits)
  qed (use Cons in \<open>simp_all add: ApplyOperations_def one_kind_def\<close>)
qed

section \<open>Properties of NewImageSpec\<close>

text \<open>
  Claim C7. For every path that does not end in \<^verbatim>\<open>.spin\<close>,
  \<^verbatim>\<open>NewImageSpec\<close> returns the error with the message
  \<^verbatim>\<open>Not a .spin file: \<close> followed by the path, and has called neither
  \<^verbatim>\<open>config.New\<close> nor \<^verbatim>\<open>filepath.Abs\<close> nor the parser.
\<close>

theorem NewImageSpec_bad_suffix:
  "\<not> HasSuffix spinFile ''.spin'' \<Longrightarrow>
   NewImageSpec (recording_env env) spinFile (w, [])
   = (Inl (Errorf (''Not a .spin file: '' @ spinFile)), (w, []))"
  by (simp add: NewImageSpec_def)

theorem NewImageSpec_bad_suffix_witness:
  "\<not> HasSuffix ''image.txt'' ''.spin''
   \<and> NewImageSpec
        (recording_env (fake_env (Inr \<lparr>Image_Packages = ''packages''\<rparr>) (Inr ''/img'') (Inr [])))
        ''image.txt'' (0, [])
     = (Inl (Errorf ''Not a .spin file: image.txt''), (0, []))"
proof -
  have h: "\<not> HasSuffix ''image.txt'' ''.spin''" by (simp add: HasSuffix_def)
  from NewImageSpec_bad_suffix [OF h] h show ?thesis by simp
qed

text \<open>
  Claim C8. On a path ending in \<^verbatim>\<open>.spin\<close>, when
  \<^verbatim>\<open>config.New\<close> fails, or it succeeds and \<^verbatim>\<open>filepath.Abs\<close>
  fails, or both succeed and the parser fails on the joined path,
  \<^verbatim>\<open>NewImageSpec\<close> returns the very error of the failing call and no
  \<^verbatim>\<open>ImageSpec\<close>.
\<close>

theorem NewImageSpec_propagates:
  assumes "HasSuffix spinFile ''.spin''"
  shows "(config_New env spinFile w = (Inl e, w1) \<longrightarrow>
            NewImageSpec env spinFile w = (Inl e, w1))
       \<and> (config_New env spinFile w = (Inr conf, w1) \<and>
          filepath_Abs env (filepath_Dir env spinFile) w1 = (Inl e, w2) \<longrightarrow>
            NewImageSpec env spinFile w = (Inl e, w2))
       \<and> (config_New env spinFile w = (Inr conf, w1) \<and>
          filepath_Abs env (filepath_Dir env spinFile) w1 = (Inr dir, w2) \<and>
          parser_Parse env (filepath_Join env dir (Image_Packages conf)) w2 = (Inl e, w3) \<longrightarrow>
            NewImageSpec env spinFile w = (Inl e, w3))"
  using assms by (simp add: NewImageSpec_def)

theorem NewImageSpec_propagates_witness:
  "HasSuffix ''a.spin'' ''.spin''
   \<and> config_New (fake_env (Inl (CollaboratorError ''config'')) (Inr ''/img'') (Inr [])) ''a.spin'' 0
       = (Inl (CollaboratorError ''config''), 1)
   \<and> NewImageSpec (fake_env (Inl (CollaboratorError ''config'')) (Inr ''/img'') (Inr [])) ''a.spin'' 0
       = (Inl (CollaboratorError ''config''), 1)
   \<and> filepath_Abs
        (fake_env (Inr \<lparr>Image_Packages = ''packages''\<rparr>) (Inl (CollaboratorError ''getwd'')) (Inr []))
        ''.'' 1
       = (Inl (CollaboratorError ''getwd''), 2)
   \<and> NewImageSpec
        (fake_env (Inr \<lparr>Image_Packages = ''packages''\<rparr>) (Inl (CollaboratorError ''getwd'')) (Inr []))
        ''a.spin'' 0
       = (Inl (CollaboratorError ''getwd''), 2)
   \<and> parser_Parse
        (fake_env (Inr \<lparr>Image_Packages = ''packages''\<rparr>) (Inr ''/img'') (Inl (CollaboratorError ''parse'')))
        ''/img/packages'' 2
       = (Inl (CollaboratorError ''parse''), 3)
   \<and> NewImageSpec
        (fake_env (Inr \<lparr>Image_Packages = ''packages''\<rparr>) (Inr ''/img'') (Inl (CollaboratorError ''parse'')))
        ''a.spin'' 0
       = (Inl (CollaboratorError ''parse''), 3)"
proof -
  let ?conf = "\<lparr>Image_Packages = ''packages''\<rparr>"
  let ?e1 = "fake_env (Inl (CollaboratorError ''config'')) (Inr ''/img'') (Inr [])"
  let ?e2 = "fake_env (Inr ?conf) (Inl (CollaboratorError ''getwd'')) (Inr [])"
  let ?e3 = "fake_env (Inr ?conf) (Inr ''/img'') (Inl (CollaboratorError ''parse''))"
  have h: "HasSuffix ''a.spin'' ''.spin''" by (simp add: HasSuffix_def)
  have c1: "config_New ?e1 ''a.spin'' 0 = (Inl (CollaboratorError ''config''), 1)"
    by (simp add: fake_env_def)
  have c2: "config_New ?e2 ''a.spin'' 0 = (Inr ?conf, 1)"
    by (simp add: fake_env_def)
  have a2: "filepath_Abs ?e2 (filepath_Dir ?e2 ''a.spin'') 1 = (Inl (CollaboratorError ''getwd''), 2)"
    by (simp add: fake_env_def)
  have d2: "filepath_Dir ?e2 ''a.spin'' = ''.''"
    by (simp add: fake_env_def)
  have c3: "config_New ?e3 ''a.spin'' 0 = (Inr ?conf, 1)"
    by (simp add: fake_env_def)
  have a3: "filepath_Abs ?e3 (filepath_Dir ?e3 ''a.spin'') 1 = (Inr ''/img'', 2)"
    by (simp add: fake_env_def)
  have j3: "filepath_Join ?e3 ''/img'' (Image_Packages ?conf) = ''/img/packages''"
    by (simp add: fake_env_def)
  have p3: "parser_Parse ?e3 (filepath_Join ?e3 ''/img'' (Image_Packages ?conf)) 2
              = (Inl (CollaboratorError ''parse''), 3)"
    by (simp add: fake_env_def)
  have r1: "NewImageSpec ?e1 ''a.spin'' 0 = (Inl (CollaboratorError ''config''), 1)"
    using NewImageSpec_propagates [OF h, of ?e1 0 "CollaboratorError ''config''" 1] c1 by blast
  have r2: "NewImageSpec ?e2 ''a.spin'' 0 = (Inl (CollaboratorError ''getwd''), 2)"
    using NewImageSpec_propagates [OF h, of ?e2 0 "CollaboratorError ''getwd''" 1 ?conf 2] c2 a2
    by blast
  have r3: "NewImageSpec ?e3 ''a.spin'' 0 = (Inl (CollaboratorError ''parse''), 3)"
    using NewImageSpec_propagates
      [OF h, of ?e3 0 "CollaboratorError ''parse''" 1 ?conf 2 "''/img''" 3] c3 a3 p3
    by blast
  from h c1 r1 a2 r2 p3 r3 d2 j3 show ?thesis by simp
qed

text \<open>
  The struct literal of line 78 has no \<^verbatim>\<open>BaseDir\<close>: every
  \<^verbatim>\<open>ImageSpec\<close> returned has the empty string there.
\<close>

lemma NewImageSpec_BaseDir:
  "NewImageSpec env spinFile w = (Inr spec, w') \<Longrightarrow> BaseDir spec = []"
  by (auto simp: NewImageSpec_def Let_def split: if_splits prod.splits sum.splits)

text \<open>
  Claim C1. The claim asks for the returned \<^verbatim>\<open>BaseDir\<close> to be the absolute
  directory of the \<^verbatim>\<open>.spin\<close> file. Loading \<^verbatim>\<open>a.spin\<close> where the
  working directory is \<^verbatim>\<open>/img\<close> and the configuration names the file
  \<^verbatim>\<open>packages\<close>: the loader parses \<^verbatim>\<open>/img/packages\<close>, and the
  \<^verbatim>\<open>ImageSpec\<close> it returns has the empty \<^verbatim>\<open>BaseDir\<close>, not
  \<^verbatim>\<open>/img\<close>.
\<close>

theorem NewImageSpec_returns_empty_BaseDir:
  "NewImageSpec
     (recording_env (fake_env (Inr \<lparr>Image_Packages = ''packages''\<rparr>) (Inr ''/img'')
        (Inr [OpPackage ''nano'' False])))
     ''a.spin'' (0, [])
   = (Inr \<lparr>Stack = Some [OpPackage ''nano'' False],
            Config = Some \<lparr>Image_Packages = ''packages''\<rparr>, BaseDir = []\<rparr>,
      (3, [CallConfigNew ''a.spin'', CallAbs ''.'', CallParse ''/img/packages'']))"
  by (simp add: NewImageSpec_def recording_env_def fake_env_def HasSuffix_def)

end
